theory Spec2Isabelle
  imports Main
begin

section \<open>Data model of the relay (src/api/index.ts)\<close>

text \<open>
  Strings are character lists; a JavaScript string is falsy exactly when it is empty.
  Characters stand for code units below 256, which covers the white space that
  \<open>String.prototype.trim\<close> strips in that range.
\<close>

record onlineUser =
  socketId :: string
  userId :: string

text \<open>A value of TypeScript type \<open>any\<close> (the offer, answer and candidate payloads).\<close>

datatype jsvalue =
    JUndefined
  | JNull
  | JBool bool
  | JNumber int
  | JNaN
  | JString string
  | JObject "(string \<times> jsvalue) list"

fun truthy :: "jsvalue \<Rightarrow> bool" where
  "truthy JUndefined = False"
| "truthy JNull = False"
| "truthy (JBool b) = b"
| "truthy (JNumber n) = (n \<noteq> 0)"
| "truthy JNaN = False"
| "truthy (JString s) = (s \<noteq> [])"
| "truthy (JObject fs) = True"

text \<open>
  The payload of \<open>chat:message\<close>. The handler reads it with optional chaining
  (\<open>payload?.message?.trim()\<close>), so the payload and each field may be absent.
\<close>

record chatMessagePayload =
  payloadUserId :: "string option"
  payloadMessage :: "string option"
  payloadTimestamp :: "string option"

record outgoingMessage =
  outUserId :: string
  outMessage :: string
  outTimestamp :: string

text \<open>The events the server sends, by Socket.IO event name.\<close>

datatype message =
    UsersOnlineMsg "onlineUser list"
  | ChatMessageMsg outgoingMessage
  | RtcJoinedMsg string
  | RtcLeftMsg string
  | RtcOfferMsg string jsvalue
  | RtcAnswerMsg string jsvalue
  | RtcIceMsg string jsvalue
  | MeetingEndedMsg
  | MeetingEndDeniedMsg

text \<open>
  The four ways the source addresses an emit:
  \<open>io.emit\<close>, \<open>io.to(room).emit\<close>, \<open>socket.to(room).emit\<close> (from the socket
  given second) and \<open>socket.emit\<close>.
\<close>

datatype target =
    IoEmit
  | IoTo string
  | SocketTo string string
  | SocketEmit string

record emission =
  via :: target
  receivers :: "string list"
  content :: message

text \<open>
  The state: the two module-level variables \<open>onlineUsers\<close> and \<open>roomHost\<close>, the
  transport's connected sockets (\<open>io.sockets.sockets\<close>) and group membership
  (\<open>io.sockets.adapter.rooms\<close>, a room without members being absent there), and the log
  of everything emitted so far. \<open>roomHost\<close> is a JavaScript \<open>Map\<close>: an association
  list in insertion order.
\<close>

record state =
  onlineUsers :: "onlineUser list"
  roomHost :: "(string \<times> string) list"
  sockets :: "string list"
  rooms :: "string \<Rightarrow> string list"
  outbox :: "emission list"

definition initState :: state where
  "initState = \<lparr>onlineUsers = [], roomHost = [], sockets = [], rooms = (\<lambda>r. []), outbox = []\<rparr>"

section \<open>JavaScript library operations used by the handlers\<close>

definition mapHas :: "string \<Rightarrow> (string \<times> string) list \<Rightarrow> bool" where
  "mapHas k m = (map_of m k \<noteq> None)"

definition mapGet :: "(string \<times> string) list \<Rightarrow> string \<Rightarrow> string option" where
  "mapGet m k = map_of m k"

fun mapSet :: "string \<Rightarrow> string \<Rightarrow> (string \<times> string) list \<Rightarrow> (string \<times> string) list" where
  "mapSet k v [] = [(k, v)]"
| "mapSet k v ((k', v') # m) = (if k' = k then (k, v) # m else (k', v') # mapSet k v m)"

definition mapDelete :: "string \<Rightarrow> (string \<times> string) list \<Rightarrow> (string \<times> string) list" where
  "mapDelete k m = filter (\<lambda>e. fst e \<noteq> k) m"

text \<open>\<open>Array.prototype.findIndex\<close>, with \<open>None\<close> for the result \<open>-1\<close>.\<close>

fun findIndex :: "('a \<Rightarrow> bool) \<Rightarrow> 'a list \<Rightarrow> nat option" where
  "findIndex P [] = None"
| "findIndex P (x # xs) = (if P x then Some 0 else map_option Suc (findIndex P xs))"

definition isWhiteSpace :: "char \<Rightarrow> bool" where
  "isWhiteSpace c = (c \<in> set [CHR 0x09, CHR 0x0A, CHR 0x0B, CHR 0x0C, CHR 0x0D, CHR 0x20, CHR 0xA0])"

definition trim :: "string \<Rightarrow> string" where
  "trim s = rev (dropWhile isWhiteSpace (rev (dropWhile isWhiteSpace s)))"

text \<open>\<open>a || b\<close> on a possibly absent string \<open>a\<close>: \<open>a\<close> when it is truthy, else \<open>b\<close>.\<close>

definition orElse :: "string option \<Rightarrow> string \<Rightarrow> string" where
  "orElse a b = (case a of None \<Rightarrow> b | Some x \<Rightarrow> if x \<noteq> [] then x else b)"

section \<open>The transport (Socket.IO) as the handlers use it\<close>

text \<open>
  Who receives an emit, resolved in the state in which it is issued:
  everyone connected; the members of a room; for \<open>socket.to(room)\<close>, the members of
  the room that are not members of the room named by the emitting socket's id (the
  broadcast excepts that room, which holds the socket itself unless it has left it and
  whoever else has joined it); or the emitting socket alone.
\<close>

fun recipients :: "state \<Rightarrow> target \<Rightarrow> string list" where
  "recipients s IoEmit = sockets s"
| "recipients s (IoTo room) = rooms s room"
| "recipients s (SocketTo room sid) = filter (\<lambda>c. c \<notin> set (rooms s sid)) (rooms s room)"
| "recipients s (SocketEmit sid) = [sid]"

definition emit :: "target \<Rightarrow> message \<Rightarrow> state \<Rightarrow> state" where
  "emit t m s = s\<lparr>outbox := outbox s @ [\<lparr>via = t, receivers = recipients s t, content = m\<rparr>]\<rparr>"

definition socketJoin :: "string \<Rightarrow> string \<Rightarrow> state \<Rightarrow> state" where
  "socketJoin sid room s =
     s\<lparr>rooms := (rooms s)(room :=
         (if sid \<in> set (rooms s room) then rooms s room else rooms s room @ [sid]))\<rparr>"

definition socketLeave :: "string \<Rightarrow> string \<Rightarrow> state \<Rightarrow> state" where
  "socketLeave sid room s = s\<lparr>rooms := (rooms s)(room := removeAll sid (rooms s room))\<rparr>"

text \<open>
  What the transport does around the two lifecycle events: a new socket is registered and
  joins the room named by its own id before the \<open>connection\<close> handler runs; a closing
  socket leaves every room and is unregistered before its \<open>disconnect\<close> handler runs.
\<close>

definition transportConnect :: "string \<Rightarrow> state \<Rightarrow> state" where
  "transportConnect sid s = socketJoin sid sid (s\<lparr>sockets := sockets s @ [sid]\<rparr>)"

definition transportDisconnect :: "string \<Rightarrow> state \<Rightarrow> state" where
  "transportDisconnect sid s =
     s\<lparr>sockets := removeAll sid (sockets s), rooms := (\<lambda>r. removeAll sid (rooms s r))\<rparr>"

section \<open>The event handlers\<close>

text \<open>Lines 59-61: \<open>io.on("connection", ...)\<close>.\<close>

definition onConnection :: "string \<Rightarrow> state \<Rightarrow> state" where
  "onConnection sid s =
     (let s1 = s\<lparr>onlineUsers := onlineUsers s @ [\<lparr>socketId = sid, userId = []\<rparr>]\<rparr>
      in emit IoEmit (UsersOnlineMsg (onlineUsers s1)) s1)"

text \<open>Lines 70-90: \<open>newUser\<close>.\<close>

definition onNewUser :: "string \<Rightarrow> string \<Rightarrow> state \<Rightarrow> state" where
  "onNewUser sid uid s =
     (if uid = [] then s
      else
        let users = onlineUsers s;
            users' =
              (case findIndex (\<lambda>user. socketId user = sid) users of
                 Some existingUserIndex \<Rightarrow>
                   users[existingUserIndex := \<lparr>socketId = sid, userId = uid\<rparr>]
               | None \<Rightarrow>
                   if \<not> list_ex (\<lambda>user. userId user = uid) users
                   then users @ [\<lparr>socketId = sid, userId = uid\<rparr>]
                   else map (\<lambda>user. if userId user = uid
                                     then \<lparr>socketId = sid, userId = uid\<rparr> else user) users);
            s1 = s\<lparr>onlineUsers := users'\<rparr>
        in emit IoEmit (UsersOnlineMsg (onlineUsers s1)) s1)"

text \<open>
  Lines 92-115: \<open>chat:message\<close>. The argument \<open>now\<close> is what
  \<open>new Date().toISOString()\<close> returns when the handler runs. Line 93 is
  \<open>trimmedMessageOf\<close>; the payload is present whenever that is.
\<close>

definition trimmedMessageOf :: "chatMessagePayload option \<Rightarrow> string option" where
  "trimmedMessageOf payload =
     (case payload of None \<Rightarrow> None | Some p \<Rightarrow> map_option trim (payloadMessage p))"

definition onChatMessage :: "string \<Rightarrow> string \<Rightarrow> chatMessagePayload option \<Rightarrow> state \<Rightarrow> state" where
  "onChatMessage sid now payload s =
     (case trimmedMessageOf payload of
        None \<Rightarrow> s
      | Some trimmedMessage \<Rightarrow>
          if trimmedMessage = [] then s
          else
            (case payload of
               None \<Rightarrow> s
             | Some p \<Rightarrow>
                 let sender = find (\<lambda>user. socketId user = sid) (onlineUsers s);
                     outgoing =
                       \<lparr>outUserId = orElse (payloadUserId p) (orElse (map_option userId sender) sid),
                        outMessage = trimmedMessage,
                        outTimestamp = (case payloadTimestamp p of Some t \<Rightarrow> t | None \<Rightarrow> now)\<rparr>
                 in emit IoEmit (ChatMessageMsg outgoing) s))"

text \<open>Lines 118-125: \<open>rtc:join\<close>.\<close>

definition onRtcJoin :: "string \<Rightarrow> string \<Rightarrow> state \<Rightarrow> state" where
  "onRtcJoin sid room s =
     (if room = [] then s
      else
        let s1 = socketJoin sid room s;
            s2 = (if \<not> mapHas room (roomHost s1)
                  then s1\<lparr>roomHost := mapSet room sid (roomHost s1)\<rparr> else s1)
        in emit (SocketTo room sid) (RtcJoinedMsg sid) s2)"

text \<open>Lines 127-131: \<open>rtc:leave\<close>.\<close>

definition onRtcLeave :: "string \<Rightarrow> string \<Rightarrow> state \<Rightarrow> state" where
  "onRtcLeave sid room s =
     (if room = [] then s
      else emit (SocketTo room sid) (RtcLeftMsg sid) (socketLeave sid room s))"

text \<open>Lines 133-146: \<open>rtc:offer\<close>, \<open>rtc:answer\<close>, \<open>rtc:ice\<close>.\<close>

definition onRtcOffer :: "string \<Rightarrow> string \<Rightarrow> string \<Rightarrow> jsvalue \<Rightarrow> state \<Rightarrow> state" where
  "onRtcOffer sid room toId offer s =
     (if room = [] \<or> toId = [] \<or> \<not> truthy offer then s
      else emit (SocketTo toId sid) (RtcOfferMsg sid offer) s)"

definition onRtcAnswer :: "string \<Rightarrow> string \<Rightarrow> string \<Rightarrow> jsvalue \<Rightarrow> state \<Rightarrow> state" where
  "onRtcAnswer sid room toId answer s =
     (if room = [] \<or> toId = [] \<or> \<not> truthy answer then s
      else emit (SocketTo toId sid) (RtcAnswerMsg sid answer) s)"

definition onRtcIce :: "string \<Rightarrow> string \<Rightarrow> string \<Rightarrow> jsvalue \<Rightarrow> state \<Rightarrow> state" where
  "onRtcIce sid room toId candidate s =
     (if room = [] \<or> toId = [] \<or> \<not> truthy candidate then s
      else emit (SocketTo toId sid) (RtcIceMsg sid candidate) s)"

text \<open>
  Lines 149-168: \<open>meeting:end\<close>. The loop visits the members the room has when it
  starts; \<open>s?.leave(room)\<close> skips an id that is not a registered socket.
\<close>

fun leaveClients :: "string list \<Rightarrow> string \<Rightarrow> state \<Rightarrow> state" where
  "leaveClients [] room s = s"
| "leaveClients (clientId # clients) room s =
     leaveClients clients room
       (if clientId \<in> set (sockets s) then socketLeave clientId room s else s)"

definition onMeetingEnd :: "string \<Rightarrow> string \<Rightarrow> state \<Rightarrow> state" where
  "onMeetingEnd sid room s =
     (if room = [] then s
      else
        (case mapGet (roomHost s) room of
           Some hostId \<Rightarrow>
             if hostId \<noteq> [] \<and> hostId = sid
             then
               let s1 = emit (IoTo room) MeetingEndedMsg s;
                   s2 = s1\<lparr>roomHost := mapDelete room (roomHost s1)\<rparr>
               in leaveClients (rooms s2 room) room s2
             else emit (SocketEmit sid) MeetingEndDeniedMsg s
         | None \<Rightarrow> emit (SocketEmit sid) MeetingEndDeniedMsg s))"

text \<open>Lines 170-174: \<open>meeting:leave\<close>.\<close>

definition onMeetingLeave :: "string \<Rightarrow> string \<Rightarrow> state \<Rightarrow> state" where
  "onMeetingLeave sid room s =
     (if room = [] then s
      else emit (SocketTo room sid) (RtcLeftMsg sid) (socketLeave sid room s))"

text \<open>
  Lines 176-190: \<open>disconnect\<close>, statement by statement in the order of the source:
  line 177 filters \<open>onlineUsers\<close>, line 178 emits \<open>usersOnline\<close>, lines 180-182 loop
  over the entries of \<open>roomHost\<close> and delete those whose host is the closing socket.
  The loop visits the entries the map has when it starts: a deletion removes the entry
  being visited and, the keys of a \<open>Map\<close> being unique, no entry still to visit.
\<close>

definition removePresence :: "string \<Rightarrow> state \<Rightarrow> state" where
  "removePresence sid s =
     s\<lparr>onlineUsers := filter (\<lambda>user. socketId user \<noteq> sid) (onlineUsers s)\<rparr>"

definition broadcastPresence :: "state \<Rightarrow> state" where
  "broadcastPresence s = emit IoEmit (UsersOnlineMsg (onlineUsers s)) s"

fun releaseLoop :: "(string \<times> string) list \<Rightarrow> string \<Rightarrow> (string \<times> string) list \<Rightarrow> (string \<times> string) list" where
  "releaseLoop [] sid m = m"
| "releaseLoop ((room, hostId) # entries) sid m =
     releaseLoop entries sid (if hostId = sid then mapDelete room m else m)"

definition releaseHosts :: "string \<Rightarrow> state \<Rightarrow> state" where
  "releaseHosts sid s = s\<lparr>roomHost := releaseLoop (roomHost s) sid (roomHost s)\<rparr>"

definition disconnectStmts :: "string \<Rightarrow> (state \<Rightarrow> state) list" where
  "disconnectStmts sid = [removePresence sid, broadcastPresence, releaseHosts sid]"

text \<open>Running statements in order; \<open>statesAfter\<close> lists the state after each one.\<close>

fun runStmts :: "(state \<Rightarrow> state) list \<Rightarrow> state \<Rightarrow> state" where
  "runStmts [] s = s"
| "runStmts (f # fs) s = runStmts fs (f s)"

fun statesAfter :: "(state \<Rightarrow> state) list \<Rightarrow> state \<Rightarrow> state list" where
  "statesAfter [] s = []"
| "statesAfter (f # fs) s = f s # statesAfter fs (f s)"

definition onDisconnect :: "string \<Rightarrow> state \<Rightarrow> state" where
  "onDisconnect sid s = runStmts (disconnectStmts sid) s"

text \<open>
  The state in which the first emit of a run of statements has just been issued:
  the first state whose log is longer than \<open>n\<close>, the length of the log at the start.
\<close>

fun stateAtFirstEmit :: "nat \<Rightarrow> state list \<Rightarrow> state option" where
  "stateAtFirstEmit n [] = None"
| "stateAtFirstEmit n (t # ts) =
     (if n < length (outbox t) then Some t else stateAtFirstEmit n ts)"

definition stateAtBroadcast :: "string \<Rightarrow> state \<Rightarrow> state option" where
  "stateAtBroadcast sid s = stateAtFirstEmit (length (outbox s)) (statesAfter (disconnectStmts sid) s)"

section \<open>Events and runs\<close>

datatype event =
    Connection string
  | NewUser string string
  | ChatMessage string string "chatMessagePayload option"
  | RtcJoin string string
  | RtcLeave string string
  | RtcOffer string string string jsvalue
  | RtcAnswer string string string jsvalue
  | RtcIce string string string jsvalue
  | MeetingEnd string string
  | MeetingLeave string string
  | Disconnect string

fun handle :: "event \<Rightarrow> state \<Rightarrow> state" where
  "handle (Connection sid) s = onConnection sid (transportConnect sid s)"
| "handle (NewUser sid uid) s = onNewUser sid uid s"
| "handle (ChatMessage sid now payload) s = onChatMessage sid now payload s"
| "handle (RtcJoin sid room) s = onRtcJoin sid room s"
| "handle (RtcLeave sid room) s = onRtcLeave sid room s"
| "handle (RtcOffer sid room toId offer) s = onRtcOffer sid room toId offer s"
| "handle (RtcAnswer sid room toId answer) s = onRtcAnswer sid room toId answer s"
| "handle (RtcIce sid room toId candidate) s = onRtcIce sid room toId candidate s"
| "handle (MeetingEnd sid room) s = onMeetingEnd sid room s"
| "handle (MeetingLeave sid room) s = onMeetingLeave sid room s"
| "handle (Disconnect sid) s = onDisconnect sid (transportDisconnect sid s)"

text \<open>
  The transport delivers a \<open>connection\<close> only for a fresh, non-empty socket id, and any
  other event only from a socket that is connected.
\<close>

fun enabled :: "state \<Rightarrow> event \<Rightarrow> bool" where
  "enabled s (Connection sid) = (sid \<noteq> [] \<and> sid \<notin> set (sockets s))"
| "enabled s (NewUser sid uid) = (sid \<in> set (sockets s))"
| "enabled s (ChatMessage sid now payload) = (sid \<in> set (sockets s))"
| "enabled s (RtcJoin sid room) = (sid \<in> set (sockets s))"
| "enabled s (RtcLeave sid room) = (sid \<in> set (sockets s))"
| "enabled s (RtcOffer sid room toId offer) = (sid \<in> set (sockets s))"
| "enabled s (RtcAnswer sid room toId answer) = (sid \<in> set (sockets s))"
| "enabled s (RtcIce sid room toId candidate) = (sid \<in> set (sockets s))"
| "enabled s (MeetingEnd sid room) = (sid \<in> set (sockets s))"
| "enabled s (MeetingLeave sid room) = (sid \<in> set (sockets s))"
| "enabled s (Disconnect sid) = (sid \<in> set (sockets s))"

fun runEvents :: "event list \<Rightarrow> state \<Rightarrow> state option" where
  "runEvents [] s = Some s"
| "runEvents (e # es) s = (if enabled s e then runEvents es (handle e s) else None)"

section \<open>Notions used to state the properties\<close>

text \<open>The entries of a presence list that bear a given \<open>userId\<close>.\<close>

definition usersNamed :: "string \<Rightarrow> onlineUser list \<Rightarrow> onlineUser list" where
  "usersNamed uid users = filter (\<lambda>user. userId user = uid) users"

text \<open>The entry of a connection in a presence list, if it has one.\<close>

definition entryOf :: "string \<Rightarrow> onlineUser list \<Rightarrow> onlineUser option" where
  "entryOf sid users = find (\<lambda>user. socketId user = sid) users"

text \<open>
  The sender identity of a chat message as section 4.2 of the specification words it:
  the payload's \<open>userId\<close> if present and non-empty, else the \<open>userId\<close> registered
  for the sender in the presence list, else the sender's connection id.
\<close>

definition senderIdentitySpec :: "string option \<Rightarrow> onlineUser list \<Rightarrow> string \<Rightarrow> string" where
  "senderIdentitySpec payloadUid users sid =
     (let registered =
            (case filter (\<lambda>user. socketId user = sid) users of
               [] \<Rightarrow> sid
             | user # rest \<Rightarrow> if userId user = [] then sid else userId user)
      in case payloadUid of
           None \<Rightarrow> registered
         | Some uid \<Rightarrow> if uid = [] then registered else uid)"

text \<open>A sequence of \<open>rtc:join\<close> events on one room, from the connections listed.\<close>

fun joinAll :: "string list \<Rightarrow> string \<Rightarrow> state \<Rightarrow> state" where
  "joinAll [] room s = s"
| "joinAll (sid # sids) room s = joinAll sids room (handle (RtcJoin sid room) s)"

text \<open>Every recorded host is a connected socket with an entry in the presence list.\<close>

definition hostsLive :: "state \<Rightarrow> bool" where
  "hostsLive s =
     list_all (\<lambda>e. snd e \<in> set (sockets s) \<and> snd e \<in> set (map socketId (onlineUsers s)))
       (roomHost s)"

text \<open>A \<open>Map\<close> has one entry per key.\<close>

definition wellFormedMap :: "(string \<times> string) list \<Rightarrow> bool" where
  "wellFormedMap m = distinct (map fst m)"

text \<open>
  The invariant of the reachable states: socket ids are non-empty, the presence list has
  entries for exactly the connected sockets, hosts are recorded for non-empty rooms and
  are connected sockets, and the members of every room are connected sockets.
\<close>

definition stateInv :: "state \<Rightarrow> bool" where
  "stateInv s \<longleftrightarrow>
     [] \<notin> set (sockets s) \<and>
     set (map socketId (onlineUsers s)) = set (sockets s) \<and>
     (\<forall>e \<in> set (roomHost s). fst e \<noteq> [] \<and> snd e \<in> set (sockets s)) \<and>
     (\<forall>r. set (rooms s r) \<subseteq> set (sockets s))"

text \<open>
  The state after the example of the specification:
  connect c1, identify c1 as alice, connect c2, identify c2 as bob.
\<close>

definition exampleState :: state where
  "exampleState =
     handle (NewUser ''c2'' ''bob'') (handle (Connection ''c2'')
       (handle (NewUser ''c1'' ''alice'') (handle (Connection ''c1'') initState)))"

text \<open>
  The state after c1 and c2 connect and both join room r1, c1 first.
\<close>

definition meetingState :: state where
  "meetingState =
     handle (RtcJoin ''c2'' ''r1'') (handle (RtcJoin ''c1'' ''r1'')
       (handle (Connection ''c2'') (handle (Connection ''c1'') initState)))"

section \<open>Basic facts about the transport operations\<close>

lemma emit_simps [simp]:
  "onlineUsers (emit t m s) = onlineUsers s"
  "roomHost (emit t m s) = roomHost s"
  "sockets (emit t m s) = sockets s"
  "rooms (emit t m s) = rooms s"
  "outbox (emit t m s) = outbox s @ [\<lparr>via = t, receivers = recipients s t, content = m\<rparr>]"
  by (simp_all add: emit_def)

lemma socketJoin_simps [simp]:
  "onlineUsers (socketJoin sid room s) = onlineUsers s"
  "roomHost (socketJoin sid room s) = roomHost s"
  "sockets (socketJoin sid room s) = sockets s"
  "outbox (socketJoin sid room s) = outbox s"
  "set (rooms (socketJoin sid room s) r) =
     (if r = room then insert sid (set (rooms s r)) else set (rooms s r))"
  by (auto simp add: socketJoin_def)

lemma socketLeave_simps [simp]:
  "onlineUsers (socketLeave sid room s) = onlineUsers s"
  "roomHost (socketLeave sid room s) = roomHost s"
  "sockets (socketLeave sid room s) = sockets s"
  "outbox (socketLeave sid room s) = outbox s"
  "rooms (socketLeave sid room s) r = (if r = room then removeAll sid (rooms s r) else rooms s r)"
  by (auto simp add: socketLeave_def)

lemma exampleState_fields:
  "onlineUsers exampleState =
     [\<lparr>socketId = ''c1'', userId = ''alice''\<rparr>, \<lparr>socketId = ''c2'', userId = ''bob''\<rparr>]"
  "roomHost exampleState = []"
  "sockets exampleState = [''c1'', ''c2'']"
  by (simp_all add: exampleState_def initState_def onConnection_def transportConnect_def
      onNewUser_def Let_def)


lemma meetingState_fields:
  "onlineUsers meetingState = [\<lparr>socketId = ''c1'', userId = []\<rparr>, \<lparr>socketId = ''c2'', userId = []\<rparr>]"
  "roomHost meetingState = [(''r1'', ''c1'')]"
  "sockets meetingState = [''c1'', ''c2'']"
  "rooms meetingState ''r1'' = [''c1'', ''c2'']"
  by (simp_all add: meetingState_def initState_def onConnection_def transportConnect_def
      onRtcJoin_def mapHas_def socketJoin_def Let_def)

lemma meetingState_reach:
  "runEvents [Connection ''c1'', Connection ''c2'', RtcJoin ''c1'' ''r1'', RtcJoin ''c2'' ''r1'']
     initState = Some meetingState"
  by (simp add: meetingState_def initState_def onConnection_def transportConnect_def
      onRtcJoin_def mapHas_def socketJoin_def Let_def)

section \<open>Chat relay\<close>

lemma find_filter_conv: "find P xs = (case filter P xs of [] \<Rightarrow> None | x # _ \<Rightarrow> Some x)"
  by (induction xs) auto

text \<open>The chain of \<open>||\<close> on line 103 computes the identity that the specification words.\<close>

lemma orElse_spec:
  "orElse puid (orElse (map_option userId (find (\<lambda>user. socketId user = sid) users)) sid)
     = senderIdentitySpec puid users sid"
  by (auto simp add: orElse_def senderIdentitySpec_def find_filter_conv
      split: option.splits list.splits)

text \<open>
  Claim C6. A \<open>chat:message\<close> whose trimmed message \<open>m\<close> is non-empty adds exactly one
  emission to the log: an \<open>io.emit\<close> of \<open>chat:message\<close>, received by every connected
  socket (the sender among them), carrying \<open>m\<close>, the identity resolved as the
  specification orders it (payload \<open>userId\<close>, else the registered \<open>userId\<close> of the
  sender, else the sender's connection id) and the payload's timestamp if supplied, else
  the current time. Nothing else of the state changes.
\<close>

theorem chat_relayed:
  assumes "trimmedMessageOf (Some p) = Some m" and "m \<noteq> []"
  shows "outbox (handle (ChatMessage sid now (Some p)) s) =
           outbox s @ [\<lparr>via = IoEmit, receivers = sockets s,
             content = ChatMessageMsg
               \<lparr>outUserId = senderIdentitySpec (payloadUserId p) (onlineUsers s) sid,
                outMessage = m,
                outTimestamp = (case payloadTimestamp p of Some t \<Rightarrow> t | None \<Rightarrow> now)\<rparr>\<rparr>]
         \<and> (sid \<in> set (sockets s) \<longrightarrow>
              sid \<in> set (receivers (last (outbox (handle (ChatMessage sid now (Some p)) s)))))
         \<and> (\<exists>t. payloadMessage p = Some t \<and> trim t = m)
         \<and> onlineUsers (handle (ChatMessage sid now (Some p)) s) = onlineUsers s
         \<and> roomHost (handle (ChatMessage sid now (Some p)) s) = roomHost s
         \<and> rooms (handle (ChatMessage sid now (Some p)) s) = rooms s
         \<and> sockets (handle (ChatMessage sid now (Some p)) s) = sockets s"
  using assms
  by (auto simp add: onChatMessage_def orElse_spec Let_def trimmedMessageOf_def)

theorem chat_relayed_witness:
  "trimmedMessageOf (Some \<lparr>payloadUserId = None, payloadMessage = Some ''  hi  '',
                            payloadTimestamp = None\<rparr>) = Some ''hi''
   \<and> ''hi'' \<noteq> []
   \<and> ''c1'' \<in> set (sockets exampleState)
   \<and> outbox (handle (ChatMessage ''c1'' ''2025-01-01T00:00:00.000Z''
        (Some \<lparr>payloadUserId = None, payloadMessage = Some ''  hi  '',
               payloadTimestamp = None\<rparr>)) exampleState) =
       outbox exampleState @ [\<lparr>via = IoEmit, receivers = [''c1'', ''c2''],
         content = ChatMessageMsg \<lparr>outUserId = ''alice'', outMessage = ''hi'',
                                   outTimestamp = ''2025-01-01T00:00:00.000Z''\<rparr>\<rparr>]
   \<and> ''c1'' \<in> set (receivers (last (outbox (handle (ChatMessage ''c1'' ''2025-01-01T00:00:00.000Z''
        (Some \<lparr>payloadUserId = None, payloadMessage = Some ''  hi  '',
               payloadTimestamp = None\<rparr>)) exampleState))))"
proof -
  have h: "trimmedMessageOf (Some \<lparr>payloadUserId = None, payloadMessage = Some ''  hi  '',
                                   payloadTimestamp = None\<rparr>) = Some ''hi''"
    by (simp add: trimmedMessageOf_def trim_def isWhiteSpace_def)
  have n: "''hi'' \<noteq> []" by simp
  show ?thesis
    using h chat_relayed [OF h n, of "''c1''" "''2025-01-01T00:00:00.000Z''" exampleState]
    by (simp add: exampleState_fields senderIdentitySpec_def)
qed

text \<open>
  Claim C7. A \<open>chat:message\<close> whose payload or message is absent, or whose message
  trims to the empty string, returns the state as it was: nothing is emitted and nothing
  is changed.
\<close>

theorem chat_empty_dropped:
  assumes "trimmedMessageOf payload = None \<or> trimmedMessageOf payload = Some []"
  shows "handle (ChatMessage sid now payload) s = s"
  using assms by (auto simp add: onChatMessage_def)

theorem chat_empty_dropped_witness:
  "trimmedMessageOf (Some \<lparr>payloadUserId = Some ''alice'', payloadMessage = Some ''  '',
                            payloadTimestamp = None\<rparr>) = Some []
   \<and> handle (ChatMessage ''c1'' ''2025-01-01T00:00:00.000Z''
        (Some \<lparr>payloadUserId = Some ''alice'', payloadMessage = Some ''  '',
               payloadTimestamp = None\<rparr>)) exampleState = exampleState
   \<and> trimmedMessageOf (Some \<lparr>payloadUserId = Some ''alice'', payloadMessage = None,
                            payloadTimestamp = None\<rparr>) = None
   \<and> handle (ChatMessage ''c1'' ''2025-01-01T00:00:00.000Z''
        (Some \<lparr>payloadUserId = Some ''alice'', payloadMessage = None,
               payloadTimestamp = None\<rparr>)) exampleState = exampleState"
proof -
  have h: "trimmedMessageOf (Some \<lparr>payloadUserId = Some ''alice'', payloadMessage = Some ''  '',
                                   payloadTimestamp = None\<rparr>) = Some []"
    by (simp add: trimmedMessageOf_def trim_def isWhiteSpace_def)
  have k: "trimmedMessageOf (Some \<lparr>payloadUserId = Some ''alice'', payloadMessage = None,
                                   payloadTimestamp = None\<rparr>) = None"
    by (simp add: trimmedMessageOf_def)
  show ?thesis
    using h k
      chat_empty_dropped [of "Some \<lparr>payloadUserId = Some ''alice'',
        payloadMessage = Some ''  '', payloadTimestamp = None\<rparr>" "''c1''"
        "''2025-01-01T00:00:00.000Z''" exampleState]
      chat_empty_dropped [of "Some \<lparr>payloadUserId = Some ''alice'',
        payloadMessage = None, payloadTimestamp = None\<rparr>" "''c1''"
        "''2025-01-01T00:00:00.000Z''" exampleState]
    by simp
qed

section \<open>Lists, maps and the loops of the handlers\<close>

lemma findIndex_Some: "findIndex P xs = Some i \<Longrightarrow> i < length xs \<and> P (xs ! i)"
  by (induction xs arbitrary: i) (auto split: if_splits)

lemma findIndex_None: "findIndex P xs = None \<longleftrightarrow> (\<forall>x \<in> set xs. \<not> P x)"
  by (induction xs) auto

lemma leaveClients_fields [simp]:
  "onlineUsers (leaveClients cs room s) = onlineUsers s"
  "roomHost (leaveClients cs room s) = roomHost s"
  "sockets (leaveClients cs room s) = sockets s"
  "outbox (leaveClients cs room s) = outbox s"
  by (induction cs arbitrary: s) simp_all

lemma leaveClients_rooms:
  "rooms (leaveClients cs room s) r =
     (if r = room then filter (\<lambda>c. \<not> (c \<in> set cs \<and> c \<in> set (sockets s))) (rooms s r)
      else rooms s r)"
proof (induction cs arbitrary: s)
  case Nil
  then show ?case by simp
next
  case (Cons c cs)
  show ?case
    by (auto simp add: Cons.IH removeAll_filter_not_eq intro!: filter_cong)
qed

lemma releaseLoop_subset: "set (releaseLoop es sid m) \<subseteq> set m"
  by (induction es sid m rule: releaseLoop.induct) (auto simp add: mapDelete_def)

lemma releaseLoop_deletes:
  "(r, sid) \<in> set es \<Longrightarrow> r \<notin> fst ` set (releaseLoop es sid m)"
proof (induction es sid m rule: releaseLoop.induct)
  case (1 sid m)
  then show ?case by simp
next
  case (2 room hostId entries sid m)
  show ?case
  proof (cases "(r, sid) \<in> set entries")
    case True
    then show ?thesis using 2 by simp
  next
    case False
    then have eq: "room = r" "hostId = sid" using "2.prems" by auto
    have "set (releaseLoop entries sid (mapDelete r m)) \<subseteq> set (mapDelete r m)"
      by (rule releaseLoop_subset)
    then show ?thesis using eq by (auto simp add: mapDelete_def)
  qed
qed

lemma releaseLoop_no_host: "sid \<notin> snd ` set (releaseLoop m sid m)"
proof
  assume "sid \<in> snd ` set (releaseLoop m sid m)"
  then obtain r where r: "(r, sid) \<in> set (releaseLoop m sid m)" by force
  then have "(r, sid) \<in> set m" using releaseLoop_subset by blast
  then have "r \<notin> fst ` set (releaseLoop m sid m)" by (rule releaseLoop_deletes)
  then show False using r by force
qed

lemma releaseLoop_clears:
  assumes "map_of m r = Some sid"
  shows "map_of (releaseLoop m sid m) r = None"
proof -
  have "(r, sid) \<in> set m" using assms by (rule map_of_SomeD)
  then have "r \<notin> fst ` set (releaseLoop m sid m)" by (rule releaseLoop_deletes)
  then show ?thesis by (simp add: map_of_eq_None_iff)
qed

lemma onDisconnect_fields:
  "onlineUsers (onDisconnect sid s) = filter (\<lambda>user. socketId user \<noteq> sid) (onlineUsers s)"
  "roomHost (onDisconnect sid s) = releaseLoop (roomHost s) sid (roomHost s)"
  "sockets (onDisconnect sid s) = sockets s"
  "rooms (onDisconnect sid s) = rooms s"
  "outbox (onDisconnect sid s) = outbox s @ [\<lparr>via = IoEmit, receivers = sockets s,
      content = UsersOnlineMsg (filter (\<lambda>user. socketId user \<noteq> sid) (onlineUsers s))\<rparr>]"
  by (simp_all add: onDisconnect_def disconnectStmts_def removePresence_def broadcastPresence_def
      releaseHosts_def)

lemma mapSet_absent: "map_of m k = None \<Longrightarrow> mapSet k v m = m @ [(k, v)]"
  by (induction m) (auto split: if_splits)

lemma roomHost_onRtcJoin:
  "roomHost (onRtcJoin sid room s) =
     (if room \<noteq> [] \<and> map_of (roomHost s) room = None then roomHost s @ [(room, sid)] else roomHost s)"
  by (simp add: onRtcJoin_def Let_def mapHas_def mapSet_absent)

lemma inv_init: "stateInv initState"
  by (simp add: stateInv_def initState_def)

lemma inv_Connection:
  assumes "stateInv s" "sid \<noteq> []"
  shows "stateInv (handle (Connection sid) s)"
  using assms
  by (auto simp add: stateInv_def onConnection_def transportConnect_def Let_def)

lemma inv_NewUser:
  assumes "stateInv s" "sid \<in> set (sockets s)"
  shows "stateInv (onNewUser sid uid s)"
proof (cases "uid = []")
  case True
  then show ?thesis using assms by (simp add: onNewUser_def)
next
  case False
  from assms have "sid \<in> set (map socketId (onlineUsers s))" by (simp add: stateInv_def)
  then have "findIndex (\<lambda>user. socketId user = sid) (onlineUsers s) \<noteq> None"
    by (auto simp add: findIndex_None)
  then obtain i where i: "findIndex (\<lambda>user. socketId user = sid) (onlineUsers s) = Some i"
    by auto
  then have b: "i < length (onlineUsers s)" "socketId (onlineUsers s ! i) = sid"
    using findIndex_Some [OF i] by auto
  have "map socketId ((onlineUsers s)[i := \<lparr>socketId = sid, userId = uid\<rparr>]) = map socketId (onlineUsers s)"
    using b by (simp add: map_update list_update_same_conv)
  then show ?thesis
    using assms False i by (simp add: onNewUser_def Let_def stateInv_def)
qed

lemma inv_emit [simp]: "stateInv (emit t m s) = stateInv s"
  by (simp add: stateInv_def)

lemma inv_socketLeave: "stateInv s \<Longrightarrow> stateInv (socketLeave sid room s)"
  by (auto simp add: stateInv_def)

lemma inv_socketJoin: "stateInv s \<Longrightarrow> sid \<in> set (sockets s) \<Longrightarrow> stateInv (socketJoin sid room s)"
  by (auto simp add: stateInv_def)

lemma inv_RtcJoin:
  assumes "stateInv s" "sid \<in> set (sockets s)"
  shows "stateInv (onRtcJoin sid room s)"
proof (cases "room = []")
  case True
  then show ?thesis using assms by (simp add: onRtcJoin_def)
next
  case False
  have j: "stateInv (socketJoin sid room s)" using assms by (rule inv_socketJoin)
  have "stateInv ((socketJoin sid room s)\<lparr>roomHost := mapSet room sid (roomHost s)\<rparr>)"
    if "map_of (roomHost s) room = None"
    using j that False assms(2) by (auto simp add: stateInv_def mapSet_absent)
  then show ?thesis using j False by (simp add: onRtcJoin_def Let_def mapHas_def)
qed

lemma inv_MeetingEnd:
  assumes "stateInv s"
  shows "stateInv (onMeetingEnd sid room s)"
  using assms
  by (auto simp add: onMeetingEnd_def Let_def stateInv_def leaveClients_rooms mapDelete_def
      split: option.splits)

lemma inv_Disconnect:
  assumes "stateInv s"
  shows "stateInv (handle (Disconnect sid) s)"
proof -
  have a: "snd e \<noteq> sid" if "e \<in> set (releaseLoop (roomHost s) sid (roomHost s))" for e
    using that releaseLoop_no_host [of sid "roomHost s"] by force
  have b: "set (releaseLoop (roomHost s) sid (roomHost s)) \<subseteq> set (roomHost s)"
    by (rule releaseLoop_subset)
  show ?thesis
    using assms a b
    by (auto simp add: stateInv_def onDisconnect_fields transportDisconnect_def)
qed

lemma inv_handle:
  assumes "stateInv s" "enabled s e"
  shows "stateInv (handle e s)"
proof (cases e)
  case (Connection sid)
  then show ?thesis using assms inv_Connection [of s sid] by simp
next
  case (NewUser sid uid)
  then show ?thesis using assms by (simp add: inv_NewUser)
next
  case (ChatMessage sid now payload)
  then show ?thesis using assms
    by (simp add: onChatMessage_def Let_def split: option.splits)
next
  case (RtcJoin sid room)
  then show ?thesis using assms by (simp add: inv_RtcJoin)
next
  case (RtcLeave sid room)
  then show ?thesis using assms by (simp add: onRtcLeave_def inv_socketLeave)
next
  case (RtcOffer sid room toId offer)
  then show ?thesis using assms by (simp add: onRtcOffer_def)
next
  case (RtcAnswer sid room toId answer)
  then show ?thesis using assms by (simp add: onRtcAnswer_def)
next
  case (RtcIce sid room toId candidate)
  then show ?thesis using assms by (simp add: onRtcIce_def)
next
  case (MeetingEnd sid room)
  then show ?thesis using assms by (simp add: inv_MeetingEnd)
next
  case (MeetingLeave sid room)
  then show ?thesis using assms by (simp add: onMeetingLeave_def inv_socketLeave)
next
  case (Disconnect sid)
  then show ?thesis using assms inv_Disconnect [of s sid] by simp
qed

lemma inv_runEvents: "stateInv s0 \<Longrightarrow> runEvents es s0 = Some s \<Longrightarrow> stateInv s"
proof (induction es arbitrary: s0)
  case Nil
  then show ?case by simp
next
  case (Cons e es)
  from Cons.prems have en: "enabled s0 e" and run: "runEvents es (handle e s0) = Some s"
    by (auto split: if_splits)
  have "stateInv (handle e s0)" using Cons.prems(1) en by (rule inv_handle)
  then show ?case using run by (rule Cons.IH)
qed

lemma inv_reachable: "runEvents es initState = Some s \<Longrightarrow> stateInv s"
  using inv_init by (rule inv_runEvents)

lemma inv_hostsLive: "stateInv s \<Longrightarrow> hostsLive s"
  by (auto simp add: stateInv_def hostsLive_def list_all_iff)

section \<open>The host index is a well-formed map, and what the release loop computes\<close>

lemma wellFormedMap_mapDelete: "wellFormedMap m \<Longrightarrow> wellFormedMap (mapDelete k m)"
  by (simp add: wellFormedMap_def mapDelete_def distinct_map_filter)

lemma wellFormedMap_releaseLoop: "wellFormedMap m \<Longrightarrow> wellFormedMap (releaseLoop es sid m)"
  by (induction es sid m rule: releaseLoop.induct) (simp_all add: wellFormedMap_mapDelete)

lemma wellFormedMap_append:
  "wellFormedMap m \<Longrightarrow> map_of m k = None \<Longrightarrow> wellFormedMap (m @ [(k, v)])"
  by (auto simp add: wellFormedMap_def map_of_eq_None_iff)

lemma wellFormedMap_handle:
  assumes "wellFormedMap (roomHost s)"
  shows "wellFormedMap (roomHost (handle e s))"
proof (cases e)
  case (Connection sid)
  then show ?thesis using assms by (simp add: onConnection_def transportConnect_def Let_def)
next
  case (NewUser sid uid)
  then show ?thesis using assms by (simp add: onNewUser_def Let_def)
next
  case (ChatMessage sid now payload)
  then show ?thesis using assms by (simp add: onChatMessage_def Let_def split: option.splits)
next
  case (RtcJoin sid room)
  then show ?thesis using assms by (simp add: roomHost_onRtcJoin wellFormedMap_append)
next
  case (RtcLeave sid room)
  then show ?thesis using assms by (simp add: onRtcLeave_def)
next
  case (RtcOffer sid room toId offer)
  then show ?thesis using assms by (simp add: onRtcOffer_def)
next
  case (RtcAnswer sid room toId answer)
  then show ?thesis using assms by (simp add: onRtcAnswer_def)
next
  case (RtcIce sid room toId candidate)
  then show ?thesis using assms by (simp add: onRtcIce_def)
next
  case (MeetingEnd sid room)
  then show ?thesis using assms
    by (simp add: onMeetingEnd_def Let_def wellFormedMap_mapDelete split: option.splits)
next
  case (MeetingLeave sid room)
  then show ?thesis using assms by (simp add: onMeetingLeave_def)
next
  case (Disconnect sid)
  then show ?thesis using assms
    by (simp add: onDisconnect_fields transportDisconnect_def wellFormedMap_releaseLoop)
qed

lemma wellFormedMap_runEvents:
  "wellFormedMap (roomHost s0) \<Longrightarrow> runEvents es s0 = Some s \<Longrightarrow> wellFormedMap (roomHost s)"
proof (induction es arbitrary: s0)
  case Nil
  then show ?case by simp
next
  case (Cons e es)
  from Cons.prems have run: "runEvents es (handle e s0) = Some s"
    by (auto split: if_splits)
  have "wellFormedMap (roomHost (handle e s0))" using Cons.prems(1) by (rule wellFormedMap_handle)
  then show ?case using run by (rule Cons.IH)
qed

lemma wellFormedMap_reachable: "runEvents es initState = Some s \<Longrightarrow> wellFormedMap (roomHost s)"
  using wellFormedMap_runEvents [of initState es s] by (simp add: initState_def wellFormedMap_def)

lemma releaseLoop_filter_gen:
  assumes "wellFormedMap M" and "set es \<subseteq> set M" and "set m \<subseteq> set M"
  shows "releaseLoop es sid m = filter (\<lambda>e. \<not> (snd e = sid \<and> e \<in> set es)) m"
  using assms(2,3)
proof (induction es sid m rule: releaseLoop.induct)
  case (1 sid m)
  then show ?case by simp
next
  case (2 room hostId entries sid m)
  show ?case
  proof (cases "hostId = sid")
    case False
    then have "releaseLoop ((room, hostId) # entries) sid m = releaseLoop entries sid m" by simp
    also have "\<dots> = filter (\<lambda>e. \<not> (snd e = sid \<and> e \<in> set entries)) m"
      using "2.IH" "2.prems" False by simp
    also have "\<dots> = filter (\<lambda>e. \<not> (snd e = sid \<and> e \<in> set ((room, hostId) # entries))) m"
      using False by (intro filter_cong) auto
    finally show ?thesis .
  next
    case True
    have mem: "(room, sid) \<in> set M" using "2.prems"(1) True by simp
    have key: "e = (room, sid)" if "e \<in> set m" "fst e = room" for e
    proof -
      have "(fst e, snd e) \<in> set M" using that(1) "2.prems"(2) by auto
      then have "snd e = sid"
        using mem that(2) assms(1) eq_key_imp_eq_value [of M room "snd e" sid]
        by (simp add: wellFormedMap_def)
      then show ?thesis using that(2) by (simp add: prod_eq_iff)
    qed
    have d: "mapDelete room m = filter (\<lambda>e. e \<noteq> (room, sid)) m"
      unfolding mapDelete_def
    proof (rule filter_cong [OF refl])
      fix e
      assume e: "e \<in> set m"
      show "(fst e \<noteq> room) = (e \<noteq> (room, sid))"
      proof (cases "fst e = room")
        case True
        have "e = (room, sid)" using e True by (rule key)
        then show ?thesis using True by blast
      next
        case False
        then have "e \<noteq> (room, sid)" by auto
        then show ?thesis using False by blast
      qed
    qed
    have sub: "set (mapDelete room m) \<subseteq> set M"
      using "2.prems"(2) by (auto simp add: mapDelete_def)
    have "releaseLoop ((room, hostId) # entries) sid m = releaseLoop entries sid (mapDelete room m)"
      using True by simp
    also have "\<dots> = filter (\<lambda>e. \<not> (snd e = sid \<and> e \<in> set entries)) (mapDelete room m)"
      using "2.IH" "2.prems"(1) sub True by simp
    also have "\<dots> = filter (\<lambda>e. \<not> (snd e = sid \<and> e \<in> set ((room, hostId) # entries))) m"
      unfolding d filter_filter using True by (intro filter_cong) auto
    finally show ?thesis .
  qed
qed

lemma releaseLoop_filter:
  assumes "wellFormedMap m"
  shows "releaseLoop m sid m = filter (\<lambda>e. snd e \<noteq> sid) m"
proof -
  have "releaseLoop m sid m = filter (\<lambda>e. \<not> (snd e = sid \<and> e \<in> set m)) m"
    using assms by (intro releaseLoop_filter_gen [of m]) simp_all
  also have "\<dots> = filter (\<lambda>e. snd e \<noteq> sid) m"
    by (intro filter_cong) auto
  finally show ?thesis .
qed

section \<open>Room authority\<close>

text \<open>
  Claim C10. In every state reached from the initial one by events the transport can
  deliver, every connection recorded as a host is a connected socket with an entry in the
  presence list; and so it is again after any further event.
\<close>

theorem hosts_are_connected:
  assumes "runEvents es initState = Some s"
  shows "hostsLive s \<and> (\<forall>e. enabled s e \<longrightarrow> hostsLive (handle e s))"
proof -
  have i: "stateInv s" using assms by (rule inv_reachable)
  show ?thesis using i by (auto simp add: inv_hostsLive inv_handle)
qed

theorem hosts_are_connected_witness:
  "runEvents [Connection ''c1'', Connection ''c2'', RtcJoin ''c1'' ''r1'', RtcJoin ''c2'' ''r1'']
     initState = Some meetingState
   \<and> roomHost meetingState = [(''r1'', ''c1'')]
   \<and> hostsLive meetingState
   \<and> enabled meetingState (Disconnect ''c1'')
   \<and> hostsLive (handle (Disconnect ''c1'') meetingState)"
proof -
  have e: "enabled meetingState (Disconnect ''c1'')" by (simp add: meetingState_fields)
  have t: "hostsLive meetingState
         \<and> (\<forall>e. enabled meetingState e \<longrightarrow> hostsLive (handle e meetingState))"
    using meetingState_reach by (rule hosts_are_connected)
  then have d: "hostsLive (handle (Disconnect ''c1'') meetingState)" using e by blast
  have "roomHost meetingState = [(''r1'', ''c1'')]
   \<and> hostsLive meetingState
   \<and> enabled meetingState (Disconnect ''c1'')
   \<and> hostsLive (handle (Disconnect ''c1'') meetingState)"
    using t e d by (simp only: meetingState_fields simp_thms)
  then show ?thesis by (rule conjI [OF meetingState_reach])
qed

text \<open>
  Claim C5. In a reachable state, the \<open>disconnect\<close> of a connection deletes from the
  host index exactly the entries whose host is that connection, however many there are:
  no room has it as host afterwards, every room it hosted has no host, and the next
  connection to join such a room becomes its host.
\<close>

theorem disconnect_releases_hosts:
  assumes "runEvents es initState = Some s"
  shows "roomHost (handle (Disconnect sid) s) = filter (\<lambda>e. snd e \<noteq> sid) (roomHost s)
       \<and> sid \<notin> set (map snd (roomHost (handle (Disconnect sid) s)))
       \<and> (mapGet (roomHost s) room = Some sid \<longrightarrow>
            mapGet (roomHost (handle (Disconnect sid) s)) room = None
          \<and> mapGet (roomHost (handle (RtcJoin joiner room) (handle (Disconnect sid) s))) room
              = Some joiner)"
proof -
  have i: "stateInv s" using assms by (rule inv_reachable)
  have a: "sid \<notin> set (map snd (roomHost (handle (Disconnect sid) s)))"
    using releaseLoop_no_host [of sid "roomHost s"]
    by (simp add: onDisconnect_fields transportDisconnect_def)
  have b: "mapGet (roomHost (handle (Disconnect sid) s)) room = None
         \<and> mapGet (roomHost (handle (RtcJoin joiner room) (handle (Disconnect sid) s))) room = Some joiner"
    if h: "mapGet (roomHost s) room = Some sid"
  proof -
    have "(room, sid) \<in> set (roomHost s)" using h by (simp add: mapGet_def map_of_SomeD)
    then have ne: "room \<noteq> []" using i by (auto simp add: stateInv_def)
    have c: "map_of (roomHost (handle (Disconnect sid) s)) room = None"
      using h releaseLoop_clears [of "roomHost s" room sid]
      by (simp add: onDisconnect_fields transportDisconnect_def mapGet_def)
    show ?thesis using c ne by (simp add: mapGet_def roomHost_onRtcJoin map_add_def)
  qed
  have c: "roomHost (handle (Disconnect sid) s) = filter (\<lambda>e. snd e \<noteq> sid) (roomHost s)"
    using wellFormedMap_reachable [OF assms]
    by (simp add: onDisconnect_fields transportDisconnect_def releaseLoop_filter)
  show ?thesis using a b c by blast
qed

theorem disconnect_releases_hosts_witness:
  "runEvents [Connection ''c1'', Connection ''c2'', RtcJoin ''c1'' ''r1'', RtcJoin ''c2'' ''r1'']
     initState = Some meetingState
   \<and> mapGet (roomHost meetingState) ''r1'' = Some ''c1''
   \<and> roomHost (handle (Disconnect ''c1'') meetingState) = []
   \<and> mapGet (roomHost (handle (RtcJoin ''c2'' ''r1'') (handle (Disconnect ''c1'') meetingState))) ''r1''
       = Some ''c2''"
proof -
  have h: "mapGet (roomHost meetingState) ''r1'' = Some ''c1''"
    by (simp add: meetingState_fields mapGet_def)
  have "mapGet (roomHost meetingState) ''r1'' = Some ''c1''
   \<and> roomHost (handle (Disconnect ''c1'') meetingState) = []
   \<and> mapGet (roomHost (handle (RtcJoin ''c2'' ''r1'') (handle (Disconnect ''c1'') meetingState))) ''r1''
       = Some ''c2''"
    using disconnect_releases_hosts [OF meetingState_reach, of "''c1''" "''r1''" "''c2''"] h
    by (simp add: meetingState_fields)
  then show ?thesis by (rule conjI [OF meetingState_reach])
qed

text \<open>
  Claim C2. In a reachable state, a \<open>meeting:end\<close> for a non-empty room from a
  connected socket: if the socket is the recorded host of the room, \<open>meeting:ended\<close>
  is emitted to the members of the room, the host entry of the room is deleted and the
  room is left without members; otherwise \<open>meeting:end:denied\<close> is emitted to the
  requester alone and nothing else changes.
\<close>

theorem meeting_end_host_only:
  assumes "runEvents es initState = Some s" and "sid \<in> set (sockets s)" and "room \<noteq> []"
  shows "(mapGet (roomHost s) room = Some sid \<longrightarrow>
            outbox (handle (MeetingEnd sid room) s) =
              outbox s @ [\<lparr>via = IoTo room, receivers = rooms s room, content = MeetingEndedMsg\<rparr>]
          \<and> roomHost (handle (MeetingEnd sid room) s) = mapDelete room (roomHost s)
          \<and> mapGet (roomHost (handle (MeetingEnd sid room) s)) room = None
          \<and> rooms (handle (MeetingEnd sid room) s) room = [])
       \<and> (mapGet (roomHost s) room \<noteq> Some sid \<longrightarrow>
            handle (MeetingEnd sid room) s =
              s\<lparr>outbox := outbox s @ [\<lparr>via = SocketEmit sid, receivers = [sid],
                                        content = MeetingEndDeniedMsg\<rparr>]\<rparr>)"
proof -
  have i: "stateInv s" using assms(1) by (rule inv_reachable)
  have ne: "sid \<noteq> []" using i assms(2) by (auto simp add: stateInv_def)
  have sub: "set (rooms s room) \<subseteq> set (sockets s)" using i by (simp add: stateInv_def)
  have del: "map_of (mapDelete room m) room = None" for m :: "(string \<times> string) list"
    by (induction m) (auto simp add: mapDelete_def)
  have emp: "filter (\<lambda>c. \<not> (c \<in> set (rooms s room) \<and> c \<in> set (sockets s))) (rooms s room) = []"
    using sub by (auto simp add: filter_empty_conv)
  have host: "outbox (onMeetingEnd sid room s) =
              outbox s @ [\<lparr>via = IoTo room, receivers = rooms s room, content = MeetingEndedMsg\<rparr>]
          \<and> roomHost (onMeetingEnd sid room s) = mapDelete room (roomHost s)
          \<and> mapGet (roomHost (onMeetingEnd sid room s)) room = None
          \<and> rooms (onMeetingEnd sid room s) room = []"
    if "mapGet (roomHost s) room = Some sid"
    using that ne assms(3) emp
    by (simp add: onMeetingEnd_def Let_def leaveClients_rooms del mapGet_def)
  have denied: "onMeetingEnd sid room s =
              s\<lparr>outbox := outbox s @ [\<lparr>via = SocketEmit sid, receivers = [sid],
                                        content = MeetingEndDeniedMsg\<rparr>]\<rparr>"
    if "mapGet (roomHost s) room \<noteq> Some sid"
    using that assms(3)
    by (auto simp add: onMeetingEnd_def emit_def split: option.splits)
  show ?thesis unfolding handle.simps using host denied by blast
qed

theorem meeting_end_host_only_witness:
  "runEvents [Connection ''c1'', Connection ''c2'', RtcJoin ''c1'' ''r1'', RtcJoin ''c2'' ''r1'']
     initState = Some meetingState
   \<and> ''c1'' \<in> set (sockets meetingState) \<and> ''c2'' \<in> set (sockets meetingState) \<and> ''r1'' \<noteq> []
   \<and> mapGet (roomHost meetingState) ''r1'' = Some ''c1''
   \<and> outbox (handle (MeetingEnd ''c1'' ''r1'') meetingState) =
       outbox meetingState @ [\<lparr>via = IoTo ''r1'', receivers = [''c1'', ''c2''],
                                content = MeetingEndedMsg\<rparr>]
   \<and> roomHost (handle (MeetingEnd ''c1'' ''r1'') meetingState) = []
   \<and> rooms (handle (MeetingEnd ''c1'' ''r1'') meetingState) ''r1'' = []
   \<and> mapGet (roomHost meetingState) ''r1'' \<noteq> Some ''c2''
   \<and> handle (MeetingEnd ''c2'' ''r1'') meetingState =
       meetingState\<lparr>outbox := outbox meetingState @
         [\<lparr>via = SocketEmit ''c2'', receivers = [''c2''], content = MeetingEndDeniedMsg\<rparr>]\<rparr>"
proof -
  have c1: "''c1'' \<in> set (sockets meetingState)" by (simp add: meetingState_fields)
  have c2: "''c2'' \<in> set (sockets meetingState)" by (simp add: meetingState_fields)
  have r: "''r1'' \<noteq> []" by simp
  have "''c1'' \<in> set (sockets meetingState) \<and> ''c2'' \<in> set (sockets meetingState) \<and> ''r1'' \<noteq> []
   \<and> mapGet (roomHost meetingState) ''r1'' = Some ''c1''
   \<and> outbox (handle (MeetingEnd ''c1'' ''r1'') meetingState) =
       outbox meetingState @ [\<lparr>via = IoTo ''r1'', receivers = [''c1'', ''c2''],
                                content = MeetingEndedMsg\<rparr>]
   \<and> roomHost (handle (MeetingEnd ''c1'' ''r1'') meetingState) = []
   \<and> rooms (handle (MeetingEnd ''c1'' ''r1'') meetingState) ''r1'' = []
   \<and> mapGet (roomHost meetingState) ''r1'' \<noteq> Some ''c2''
   \<and> handle (MeetingEnd ''c2'' ''r1'') meetingState =
       meetingState\<lparr>outbox := outbox meetingState @
         [\<lparr>via = SocketEmit ''c2'', receivers = [''c2''], content = MeetingEndDeniedMsg\<rparr>]\<rparr>"
    using meeting_end_host_only [OF meetingState_reach c1 r]
      meeting_end_host_only [OF meetingState_reach c2 r]
    by (simp add: meetingState_fields mapGet_def mapDelete_def)
  then show ?thesis by (rule conjI [OF meetingState_reach])
qed

lemma joinAll_hosted:
  "map_of (roomHost s) room = Some h \<Longrightarrow> roomHost (joinAll sids room s) = roomHost s"
  by (induction sids arbitrary: s) (simp_all add: roomHost_onRtcJoin)

text \<open>
  Claim C4. On a room named by a non-empty string that has no recorded host, the first
  connection of a sequence of \<open>rtc:join\<close> events becomes the host, whoever joins after
  it; and once a room has a host, no \<open>rtc:join\<close> and no sequence of them changes the
  host index. (A join whose room is empty is dropped on line 119.)
\<close>

theorem first_joiner_wins:
  "(room \<noteq> [] \<and> mapGet (roomHost s) room = None \<longrightarrow>
      mapGet (roomHost (joinAll (sid # sids) room s)) room = Some sid
    \<and> roomHost (joinAll (sid # sids) room s) = roomHost s @ [(room, sid)])
   \<and> (mapGet (roomHost s) room = Some h \<longrightarrow>
        roomHost (handle (RtcJoin sid room) s) = roomHost s
      \<and> roomHost (joinAll sids room s) = roomHost s)"
proof -
  have a: "roomHost (joinAll (sid # sids) room s) = roomHost s @ [(room, sid)]"
    if "room \<noteq> []" "map_of (roomHost s) room = None"
  proof -
    have "roomHost (onRtcJoin sid room s) = roomHost s @ [(room, sid)]"
      using that by (simp add: roomHost_onRtcJoin)
    moreover have "map_of (roomHost (onRtcJoin sid room s)) room = Some sid"
      using that by (simp add: roomHost_onRtcJoin map_add_def)
    ultimately show ?thesis
      using joinAll_hosted [of "onRtcJoin sid room s" room sid sids] by simp
  qed
  show ?thesis
    using a by (auto simp add: mapGet_def roomHost_onRtcJoin joinAll_hosted map_add_def)
qed

theorem first_joiner_wins_witness:
  "''r1'' \<noteq> [] \<and> mapGet (roomHost exampleState) ''r1'' = None
   \<and> mapGet (roomHost (joinAll [''c1'', ''c2''] ''r1'' exampleState)) ''r1'' = Some ''c1''
   \<and> roomHost meetingState = [(''r1'', ''c1'')]
   \<and> mapGet (roomHost meetingState) ''r1'' = Some ''c1''
   \<and> roomHost (handle (RtcJoin ''c2'' ''r1'') meetingState) = [(''r1'', ''c1'')]
   \<and> roomHost (joinAll [''c2'', ''c1'', ''c3''] ''r1'' meetingState) = [(''r1'', ''c1'')]"
  using first_joiner_wins [where room = "''r1''" and s = exampleState and sid = "''c1''"
      and sids = "[''c2'']"]
    first_joiner_wins [where room = "''r1''" and s = meetingState and h = "''c1''"
      and sid = "''c2''" and sids = "[''c2'', ''c1'', ''c3'']"]
  by (simp add: exampleState_fields meetingState_fields mapGet_def)

section \<open>Signaling relay\<close>




section \<open>Presence registry\<close>

text \<open>
  Claim C9. For a connection without an entry in the presence list, its \<open>connection\<close>
  followed by its \<open>disconnect\<close> leaves the presence list exactly as it was.
\<close>

theorem connect_disconnect_no_residue:
  assumes "sid \<notin> set (map socketId (onlineUsers s))"
  shows "onlineUsers (handle (Disconnect sid) (handle (Connection sid) s)) = onlineUsers s"
proof -
  have "filter (\<lambda>user. socketId user \<noteq> sid) (onlineUsers s) = onlineUsers s"
    using assms by (auto simp add: filter_id_conv)
  then show ?thesis
    by (simp add: onDisconnect_fields transportDisconnect_def onConnection_def
        transportConnect_def Let_def)
qed

theorem connect_disconnect_no_residue_witness:
  "''c3'' \<notin> set (map socketId (onlineUsers exampleState)) \<and>
   onlineUsers (handle (Disconnect ''c3'') (handle (Connection ''c3'') exampleState)) =
     [\<lparr>socketId = ''c1'', userId = ''alice''\<rparr>, \<lparr>socketId = ''c2'', userId = ''bob''\<rparr>]"
proof -
  have h: "''c3'' \<notin> set (map socketId (onlineUsers exampleState))"
    by (simp add: exampleState_fields)
  show ?thesis
    using h connect_disconnect_no_residue [OF h] by (simp add: exampleState_fields)
qed

lemma find_list_update:
  "findIndex (\<lambda>user. socketId user = sid) xs = Some i \<Longrightarrow>
   find (\<lambda>user. socketId user = c) (xs[i := \<lparr>socketId = sid, userId = uid\<rparr>]) =
     (if c = sid then Some \<lparr>socketId = sid, userId = uid\<rparr>
      else find (\<lambda>user. socketId user = c) xs)"
proof (induction xs arbitrary: i)
  case Nil
  then show ?case by simp
next
  case (Cons x xs)
  show ?case
  proof (cases "socketId x = sid")
    case True
    then have "i = 0" using Cons.prems by simp
    then show ?thesis using True by simp
  next
    case False
    then obtain j where j: "findIndex (\<lambda>user. socketId user = sid) xs = Some j" "i = Suc j"
      using Cons.prems by auto
    show ?thesis using False j Cons.IH [OF j(1)] by (cases "c = sid") simp_all
  qed
qed

lemma onNewUser_present:
  assumes "uid \<noteq> []" and "sid \<in> set (map socketId (onlineUsers s))"
  shows "entryOf c (onlineUsers (onNewUser sid uid s)) =
           (if c = sid then Some \<lparr>socketId = sid, userId = uid\<rparr> else entryOf c (onlineUsers s))"
    and "map socketId (onlineUsers (onNewUser sid uid s)) = map socketId (onlineUsers s)"
proof -
  have "findIndex (\<lambda>user. socketId user = sid) (onlineUsers s) \<noteq> None"
    using assms(2) by (auto simp add: findIndex_None)
  then obtain i where i: "findIndex (\<lambda>user. socketId user = sid) (onlineUsers s) = Some i"
    by auto
  have b: "i < length (onlineUsers s)" "socketId (onlineUsers s ! i) = sid"
    using findIndex_Some [OF i] by auto
  have u: "onlineUsers (onNewUser sid uid s) = (onlineUsers s)[i := \<lparr>socketId = sid, userId = uid\<rparr>]"
    using assms(1) i by (simp add: onNewUser_def Let_def)
  show "entryOf c (onlineUsers (onNewUser sid uid s)) =
           (if c = sid then Some \<lparr>socketId = sid, userId = uid\<rparr> else entryOf c (onlineUsers s))"
    using u find_list_update [OF i] by (simp add: entryOf_def)
  show "map socketId (onlineUsers (onNewUser sid uid s)) = map socketId (onlineUsers s)"
    using u b by (simp add: map_update list_update_same_conv)
qed

lemma two_members_length:
  assumes "x \<in> set xs" "y \<in> set xs" "x \<noteq> y"
  shows "2 \<le> length xs"
proof -
  have "card {x, y} \<le> card (set xs)" using assms by (intro card_mono) auto
  moreover have "card {x, y} = 2" using assms(3) by simp
  moreover have "card (set xs) \<le> length xs" by (rule card_length)
  ultimately show ?thesis by linarith
qed

lemma entryOf_mem: "entryOf c xs = Some e \<Longrightarrow> e \<in> set xs"
  by (auto simp add: entryOf_def find_Some_iff)

text \<open>
  Claim C1, as the code has it. When two distinct connections that both have an entry in
  the presence list (as every connected socket has) announce the same non-empty
  \<open>userId\<close>, each entry is overwritten in place (line 80): the list keeps its
  connection ids in order, the entries of both connections bear that \<open>userId\<close>, and so
  at least two entries bear it.
\<close>

theorem same_userId_renamed_in_place:
  assumes "c1 \<noteq> c2" and "uid \<noteq> []"
    and "c1 \<in> set (map socketId (onlineUsers s))"
    and "c2 \<in> set (map socketId (onlineUsers s))"
  shows "entryOf c1 (onlineUsers (handle (NewUser c2 uid) (handle (NewUser c1 uid) s)))
           = Some \<lparr>socketId = c1, userId = uid\<rparr>
       \<and> entryOf c2 (onlineUsers (handle (NewUser c2 uid) (handle (NewUser c1 uid) s)))
           = Some \<lparr>socketId = c2, userId = uid\<rparr>
       \<and> map socketId (onlineUsers (handle (NewUser c2 uid) (handle (NewUser c1 uid) s)))
           = map socketId (onlineUsers s)
       \<and> 2 \<le> length (usersNamed uid
                (onlineUsers (handle (NewUser c2 uid) (handle (NewUser c1 uid) s))))"
proof -
  let ?s1 = "onNewUser c1 uid s"
  let ?s2 = "onNewUser c2 uid ?s1"
  have m1: "map socketId (onlineUsers ?s1) = map socketId (onlineUsers s)"
    using assms(2,3) by (rule onNewUser_present(2))
  have in2: "c2 \<in> set (map socketId (onlineUsers ?s1))"
    using assms(4) m1 by simp
  have e1: "entryOf c1 (onlineUsers ?s1) = Some \<lparr>socketId = c1, userId = uid\<rparr>"
    using onNewUser_present(1) [OF assms(2,3), of c1] by simp
  have a: "entryOf c1 (onlineUsers ?s2) = Some \<lparr>socketId = c1, userId = uid\<rparr>"
    using onNewUser_present(1) [OF assms(2) in2, of c1] assms(1) e1 by simp
  have b: "entryOf c2 (onlineUsers ?s2) = Some \<lparr>socketId = c2, userId = uid\<rparr>"
    using onNewUser_present(1) [OF assms(2) in2, of c2] by simp
  have c: "map socketId (onlineUsers ?s2) = map socketId (onlineUsers s)"
    using onNewUser_present(2) [OF assms(2) in2] m1 by simp
  have "\<lparr>socketId = c1, userId = uid\<rparr> \<in> set (usersNamed uid (onlineUsers ?s2))"
    using entryOf_mem [OF a] by (simp add: usersNamed_def)
  moreover have "\<lparr>socketId = c2, userId = uid\<rparr> \<in> set (usersNamed uid (onlineUsers ?s2))"
    using entryOf_mem [OF b] by (simp add: usersNamed_def)
  moreover have "\<lparr>socketId = c1, userId = uid\<rparr> \<noteq> \<lparr>socketId = c2, userId = uid\<rparr>"
    using assms(1) by simp
  ultimately have d: "2 \<le> length (usersNamed uid (onlineUsers ?s2))"
    by (rule two_members_length)
  show ?thesis using a b c d by simp
qed

theorem same_userId_renamed_in_place_witness:
  "''c1'' \<noteq> ''c2'' \<and> ''carol'' \<noteq> []
   \<and> ''c1'' \<in> set (map socketId (onlineUsers exampleState))
   \<and> ''c2'' \<in> set (map socketId (onlineUsers exampleState))
   \<and> entryOf ''c1'' (onlineUsers (handle (NewUser ''c2'' ''carol'')
        (handle (NewUser ''c1'' ''carol'') exampleState))) = Some \<lparr>socketId = ''c1'', userId = ''carol''\<rparr>
   \<and> entryOf ''c2'' (onlineUsers (handle (NewUser ''c2'' ''carol'')
        (handle (NewUser ''c1'' ''carol'') exampleState))) = Some \<lparr>socketId = ''c2'', userId = ''carol''\<rparr>
   \<and> map socketId (onlineUsers (handle (NewUser ''c2'' ''carol'')
        (handle (NewUser ''c1'' ''carol'') exampleState))) = [''c1'', ''c2'']
   \<and> 2 \<le> length (usersNamed ''carol'' (onlineUsers (handle (NewUser ''c2'' ''carol'')
        (handle (NewUser ''c1'' ''carol'') exampleState))))"
proof -
  have d: "''c1'' \<noteq> ''c2''" by simp
  have n: "''carol'' \<noteq> []" by simp
  have m1: "''c1'' \<in> set (map socketId (onlineUsers exampleState))"
    by (simp add: exampleState_fields)
  have m2: "''c2'' \<in> set (map socketId (onlineUsers exampleState))"
    by (simp add: exampleState_fields)
  show ?thesis
    using same_userId_renamed_in_place [OF d n m1 m2] d m1 m2
    by (simp add: exampleState_fields)
qed

text \<open>
  Claim C1 as the specification states it (exactly one entry bears the \<open>userId\<close>, that
  of the later announcer) fails after connect c1, connect c2 and both announcing alice:
  two entries bear alice.
\<close>

theorem same_userId_counterexample:
  "runEvents [Connection ''c1'', Connection ''c2'', NewUser ''c1'' ''alice'', NewUser ''c2'' ''alice'']
     initState =
     Some (handle (NewUser ''c2'' ''alice'') (handle (NewUser ''c1'' ''alice'')
            (handle (Connection ''c2'') (handle (Connection ''c1'') initState))))
   \<and> usersNamed ''alice'' (onlineUsers (handle (NewUser ''c2'' ''alice'')
        (handle (NewUser ''c1'' ''alice'') (handle (Connection ''c2'')
          (handle (Connection ''c1'') initState))))) =
       [\<lparr>socketId = ''c1'', userId = ''alice''\<rparr>, \<lparr>socketId = ''c2'', userId = ''alice''\<rparr>]
   \<and> length (usersNamed ''alice'' (onlineUsers (handle (NewUser ''c2'' ''alice'')
        (handle (NewUser ''c1'' ''alice'') (handle (Connection ''c2'')
          (handle (Connection ''c1'') initState)))))) \<noteq> 1"
  by (simp add: usersNamed_def initState_def onConnection_def transportConnect_def
      onNewUser_def Let_def)

section \<open>Order of the statements of the disconnect handler\<close>

text \<open>
  Claim C3, as the code has it. When \<open>usersOnline\<close> is emitted for a disconnect, the
  closing connection has already been removed from the presence list and the emitted list
  is the list without it, but the host index is still what it was: the host slots of the
  connection are released after the emit, by the end of the handler, which changes
  neither the presence list nor the log any more.
\<close>

theorem disconnect_broadcast_order:
  "\<exists>t. stateAtBroadcast sid s = Some t
     \<and> sid \<notin> set (map socketId (onlineUsers t))
     \<and> outbox t = outbox s @ [\<lparr>via = IoEmit, receivers = sockets s,
                                 content = UsersOnlineMsg (onlineUsers t)\<rparr>]
     \<and> roomHost t = roomHost s
     \<and> onDisconnect sid s = releaseHosts sid t
     \<and> onlineUsers (onDisconnect sid s) = onlineUsers t
     \<and> outbox (onDisconnect sid s) = outbox t
     \<and> sid \<notin> set (map snd (roomHost (onDisconnect sid s)))"
proof -
  let ?t = "broadcastPresence (removePresence sid s)"
  have "stateAtBroadcast sid s = Some ?t"
    by (simp add: stateAtBroadcast_def disconnectStmts_def removePresence_def
        broadcastPresence_def)
  moreover have "sid \<notin> set (map snd (roomHost (onDisconnect sid s)))"
    using releaseLoop_no_host [of sid "roomHost s"] by (simp add: onDisconnect_fields)
  ultimately show ?thesis
    by (auto simp add: onDisconnect_def disconnectStmts_def removePresence_def
        broadcastPresence_def releaseHosts_def)
qed

text \<open>
  Claim C3 as the specification states it (the host slots are released before the
  broadcast is emitted) fails when c1, the host of r1, disconnects: in the state in which
  \<open>usersOnline\<close> has just been emitted c1 is still recorded as the host of r1.
\<close>

theorem release_before_broadcast_counterexample:
  "map_option roomHost (stateAtBroadcast ''c1'' (transportDisconnect ''c1'' meetingState))
     = Some [(''r1'', ''c1'')]
   \<and> map_option (length \<circ> outbox) (stateAtBroadcast ''c1'' (transportDisconnect ''c1'' meetingState))
     = Some (Suc (length (outbox meetingState)))
   \<and> roomHost (handle (Disconnect ''c1'') meetingState) = []"
  by (simp add: stateAtBroadcast_def disconnectStmts_def removePresence_def
      broadcastPresence_def releaseHosts_def transportDisconnect_def meetingState_fields
      onDisconnect_def mapDelete_def)

end
